theory Spec2Isabelle
  imports Main "HOL-Library.AList"
begin

section \<open>Values, errors and the two file trees\<close>

text \<open>
  The development embeds \<^verbatim>\<open>filedspreproc.py\<close>: the class
  \<^verbatim>\<open>FileDatasetPreprocessor\<close> with its constructor, \<^verbatim>\<open>enumerate_files\<close>,
  \<^verbatim>\<open>write_metadata\<close>, \<^verbatim>\<open>worker_fn\<close> and \<^verbatim>\<open>run\<close>.

  Cells of a metadata row are Python values; the ones the code itself produces are
  \<^verbatim>\<open>None\<close>, the integers 0 and 1 and strings. A metadata dictionary is an association
  list from column name to cell: \<open>map_of\<close> reads a key, \<open>AList.update\<close> stores one,
  and the key set is the set of first components.
\<close>

datatype pyval = PNone | PInt int | PStr string

type_synonym pydict = "(string \<times> pyval) list"

definition keys :: "pydict \<Rightarrow> string set" where
  "keys d = set (map fst d)"

datatype error = IndexError | TypeError | AssertionError | KeyError

text \<open>
  The destination side of the file system is a store from path to entry. A file is kept
  as the sequence of records written to it, so the empty file is \<open>File []\<close>.
  The source side is a directory tree, read by \<^verbatim>\<open>os.walk\<close> and never written.
\<close>

datatype fentry = Dir | File "pyval list list"

type_synonym fs = "string \<rightharpoonup> fentry"

datatype tree = Tree (files: "string list") (subdirs: "(string \<times> tree) list")

section \<open>The path functions of the standard library\<close>

text \<open>\<^verbatim>\<open>posixpath.join\<close> for two arguments.\<close>

definition join :: "string \<Rightarrow> string \<Rightarrow> string" where
  "join a b =
     (if b \<noteq> [] \<and> hd b = CHR ''/'' then b
      else if a = [] \<or> last a = CHR ''/'' then a @ b
      else a @ ''/'' @ b)"

text \<open>\<^verbatim>\<open>str.rstrip('/')\<close>.\<close>

definition rstrip_sep :: "string \<Rightarrow> string" where
  "rstrip_sep p = rev (dropWhile (\<lambda>c. c = CHR ''/'') (rev p))"

text \<open>
  \<^verbatim>\<open>posixpath.split\<close>: the tail is what follows the last separator; the head loses its
  trailing separators unless it consists of separators only.
\<close>

definition split_path :: "string \<Rightarrow> string \<times> string" where
  "split_path p =
     (let tail = rev (takeWhile (\<lambda>c. c \<noteq> CHR ''/'') (rev p));
          head = rev (dropWhile (\<lambda>c. c \<noteq> CHR ''/'') (rev p))
      in (if head \<noteq> [] \<and> list_ex (\<lambda>c. c \<noteq> CHR ''/'') head then rstrip_sep head else head,
          tail))"

text \<open>
  \<^verbatim>\<open>posixpath.splitext\<close>: the extension starts at the last dot of the last path
  component, unless only dots precede it in that component.
\<close>

definition splitext :: "string \<Rightarrow> string \<times> string" where
  "splitext p =
     (let tail = rev (takeWhile (\<lambda>c. c \<noteq> CHR ''/'') (rev p));
          head = rev (dropWhile (\<lambda>c. c \<noteq> CHR ''/'') (rev p));
          ext = CHR ''.'' # rev (takeWhile (\<lambda>c. c \<noteq> CHR ''.'') (rev tail));
          stem = take (length tail - length ext) tail
      in if list_ex (\<lambda>c. c = CHR ''.'') tail \<and> list_ex (\<lambda>c. c \<noteq> CHR ''.'') stem
         then (head @ stem, ext) else (p, []))"

text \<open>\<^verbatim>\<open>str.lower\<close> on ASCII text.\<close>

definition lower_char :: "char \<Rightarrow> char" where
  "lower_char c =
     (case map_of (zip ''ABCDEFGHIJKLMNOPQRSTUVWXYZ'' ''abcdefghijklmnopqrstuvwxyz'') c of
        Some l \<Rightarrow> l | None \<Rightarrow> c)"

definition lower :: "string \<Rightarrow> string" where
  "lower s = map lower_char s"

text \<open>
  A path names the same entry with or without trailing separators; no other
  normalisation of paths (\<^verbatim>\<open>.\<close>, \<^verbatim>\<open>..\<close>, doubled separators) is modelled.
\<close>

definition strip_trailing :: "string \<Rightarrow> string" where
  "strip_trailing p = (if list_ex (\<lambda>c. c \<noteq> CHR ''/'') p then rstrip_sep p else p)"

text \<open>\<^verbatim>\<open>os.path.exists\<close> on the destination store.\<close>

definition exists :: "fs \<Rightarrow> string \<Rightarrow> bool" where
  "exists f p = (f (strip_trailing p) \<noteq> None)"

text \<open>
  \<^verbatim>\<open>os.makedirs\<close>: the directory and every missing ancestor are created. The ancestors
  of a path are its prefixes that end before a separator.
\<close>

definition ancestors :: "string \<Rightarrow> string list" where
  "ancestors p =
     filter (\<lambda>q. q \<noteq> [] \<and> (length q = length p \<or> p ! length q = CHR ''/''))
       (map (\<lambda>n. take n p) [0 ..< Suc (length p)])"

definition makedirs :: "fs \<Rightarrow> string \<Rightarrow> fs" where
  "makedirs f p =
     fold (\<lambda>q g. if g q = None then g(q \<mapsto> Dir) else g) (ancestors (strip_trailing p)) f"

section \<open>Configuration: the constructor\<close>

text \<open>
  The transformation capability \<^verbatim>\<open>preprocess_fn\<close> is opaque code: called with the
  source and destination paths it may change the destination store in any way, and it
  either raises (the traceback text is kept) or returns the triple
  \<^verbatim>\<open>(success, message, metadata)\<close>.
\<close>

datatype outcome = Raised string | Returned bool string pydict

type_synonym capability = "string \<Rightarrow> string \<Rightarrow> fs \<Rightarrow> fs \<times> outcome"

text \<open>The attributes of the object once \<^verbatim>\<open>__init__\<close> has returned.\<close>

record config =
  src_dir :: string
  dest_dir :: string
  preprocess_fn :: capability
  input_extension :: string
  output_extension :: string
  metadata_filename :: "string option"
  metadata_columns :: "string list option"
  num_processes :: nat
  column_order :: "string list option"
  csv_file_path :: "string option"

definition reserved :: "string list" where
  "reserved = [''path'', ''success'', ''message'']"

text \<open>
  Lines 61 to 63: for each reserved name, \<^verbatim>\<open>list.remove\<close> deletes its first
  occurrence from the copy of the user's list.
\<close>

definition strip_reserved :: "string list \<Rightarrow> string list" where
  "strip_reserved cols = fold (\<lambda>k cs. if k \<in> set cs then remove1 k cs else cs) reserved cols"

text \<open>
  Lines 39 to 46. Indexing the empty string raises \<^verbatim>\<open>IndexError\<close>.
\<close>

definition norm_ext :: "string \<Rightarrow> error + string" where
  "norm_ext e = (if e = [] then Inl IndexError
                 else if hd e \<noteq> CHR ''.'' then Inr (''.'' @ e) else Inr e)"

text \<open>
  \<^verbatim>\<open>__init__\<close>. \<^verbatim>\<open>os.path.abspath\<close> depends on the working directory of the process
  and is a parameter. Line 59 stores the stripped copy in \<^verbatim>\<open>self.metadata_columns\<close>;
  line 65 builds \<^verbatim>\<open>column_order\<close> from the local \<^verbatim>\<open>metadata_columns\<close>, the list the
  caller passed, and line 68 joins the local \<^verbatim>\<open>dest_dir\<close>.
\<close>

definition init ::
  "(string \<Rightarrow> string) \<Rightarrow> string \<Rightarrow> string \<Rightarrow> capability \<Rightarrow> string \<Rightarrow> string option \<Rightarrow>
   string option \<Rightarrow> string list option \<Rightarrow> nat \<Rightarrow> error + config" where
  "init abspath src dest fn in_ext out_ext md_filename md_columns nproc =
     (case norm_ext in_ext of Inl e \<Rightarrow> Inl e
      | Inr ie \<Rightarrow>
        (case norm_ext (case out_ext of None \<Rightarrow> ie | Some oe \<Rightarrow> oe) of Inl e \<Rightarrow> Inl e
         | Inr oe \<Rightarrow>
           (let c = \<lparr> src_dir = abspath src, dest_dir = abspath dest, preprocess_fn = fn,
                      input_extension = ie, output_extension = oe,
                      metadata_filename = md_filename, metadata_columns = md_columns,
                      num_processes = nproc, column_order = None, csv_file_path = None \<rparr>
            in case md_filename of None \<Rightarrow> Inr c
               | Some name \<Rightarrow>
                 (case md_columns of None \<Rightarrow> Inl AssertionError
                  | Some cols \<Rightarrow>
                    Inr (c\<lparr> metadata_columns := Some (strip_reserved cols),
                            column_order := Some (reserved @ cols),
                            csv_file_path := Some (join dest name) \<rparr>)))))"

section \<open>Enumeration\<close>

text \<open>
  \<^verbatim>\<open>os.walk\<close>, top down: a triple for the directory itself, then the walk of each
  subdirectory under the joined path.
\<close>

fun walk :: "string \<Rightarrow> tree \<Rightarrow> (string \<times> string list \<times> string list) list" where
  "walk root (Tree fls ds) =
     (root, map fst ds, fls) # concat (map (\<lambda>(d, t). walk (join root d) t) ds)"

definition startswith :: "string \<Rightarrow> string \<Rightarrow> bool" where
  "startswith s p = (take (length p) s = p)"

text \<open>
  Lines 232 to 240: the body of \<^verbatim>\<open>enumerate_files\<close> over the triples of the walk. The
  lower-cased extension of the file name is compared with \<^verbatim>\<open>self.input_extension\<close>
  as it stands.
\<close>

fun enum_dirs :: "config \<Rightarrow> (string \<times> string list \<times> string list) list \<Rightarrow> error + string list" where
  "enum_dirs cfg [] = Inr []"
| "enum_dirs cfg ((src_root, dirs, fls) # rest) =
     (if \<not> startswith src_root (src_dir cfg) then Inl AssertionError
      else (case enum_dirs cfg rest of Inl e \<Rightarrow> Inl e
            | Inr ps \<Rightarrow>
              Inr (map (join src_root)
                     (filter (\<lambda>filename. lower (snd (splitext filename)) = input_extension cfg) fls)
                   @ ps)))"

definition enumerate_files :: "config \<Rightarrow> tree \<Rightarrow> error + string list" where
  "enumerate_files cfg t = enum_dirs cfg (walk (src_dir cfg) t)"

section \<open>The metadata log and the worker\<close>

text \<open>
  Console output is kept as a list of structured messages, file operations of the code
  itself as a trace. The log file is kept apart from the destination store: no
  destination path and no write of the capability is taken to hit the log file, and
  faults of the operating system on \<^verbatim>\<open>open\<close> are not modelled.
\<close>

datatype msg =
    WillProcess nat string
  | ReportedFailure string string
  | ErrorHappened string
  | TracebackText string
  | GotTermination nat
  | SkippingExisting string
  | WillCreateDir string
  | ProgressReport nat
  | ProcessDead nat
  | DoneMsg

datatype io_event = OpenWrite string | OpenAppend string | WriteRow string "pyval list" | Close string

text \<open>
  A worker process is alive, has left its loop on a termination marker, or has died of
  an uncaught exception. The dispatcher is in the \<^verbatim>\<open>for\<close> loop of \<^verbatim>\<open>run\<close>, in the
  stopping loop, or past it; \<open>Aborted\<close> is an exception leaving \<^verbatim>\<open>run\<close>.
\<close>

datatype wstatus = Alive | Exited | Crashed error

datatype phase = Enumerating | Draining | Done | Aborted error

text \<open>
  The state of a run: the destination store, the log file, the trace and the console;
  the queue, whose entries are work items or \<^verbatim>\<open>None\<close>; the worker processes; and the
  local variables of \<^verbatim>\<open>run\<close>. \<open>pending\<close> holds the paths the generator has yet to
  yield, \<open>putting\<close> the item of a \<^verbatim>\<open>queue.put\<close> that has not returned yet.
\<close>

record state =
  fs :: fs
  log :: "pyval list list"
  io :: "io_event list"
  console :: "msg list"
  queue :: "(string \<times> string) option list"
  workers :: "wstatus list"
  pending :: "string list"
  cur_src_dir :: "string option"
  cur_dest_dir :: "string option"
  count :: nat
  putting :: "(string \<times> string) option"
  processes_alive :: "nat list"
  phase :: phase

definition print_msg :: "msg \<Rightarrow> state \<Rightarrow> state" where
  "print_msg m st = st\<lparr>console := console st @ [m]\<rparr>"

text \<open>
  \<^verbatim>\<open>write_metadata\<close>, lines 215 to 227. \<^verbatim>\<open>set(None)\<close> and \<^verbatim>\<open>open(None)\<close> raise
  \<^verbatim>\<open>TypeError\<close>; a key of \<^verbatim>\<open>column_order\<close> missing from the dictionary would raise
  \<^verbatim>\<open>KeyError\<close>.
\<close>

definition write_metadata :: "config \<Rightarrow> pydict \<Rightarrow> state \<Rightarrow> error + state" where
  "write_metadata cfg metadata st =
     (case metadata_filename cfg of None \<Rightarrow> Inr st
      | Some name \<Rightarrow>
        (case column_order cfg of None \<Rightarrow> Inl TypeError
         | Some co \<Rightarrow>
           if keys metadata \<noteq> set co then Inl AssertionError
           else (case those (map (map_of metadata) co) of None \<Rightarrow> Inl KeyError
                 | Some row \<Rightarrow>
                   (case csv_file_path cfg of None \<Rightarrow> Inl TypeError
                    | Some p \<Rightarrow>
                      Inr (st\<lparr>log := log st @ [row],
                              io := io st @ [OpenAppend p, WriteRow p row, Close p]\<rparr>)))))"

text \<open>Lines 201 to 203.\<close>

definition pad :: "string list \<Rightarrow> pydict \<Rightarrow> pydict" where
  "pad cols metadata =
     fold (\<lambda>c m. if map_of m c = None then AList.update c PNone m else m) cols metadata"

text \<open>Lines 205 to 209.\<close>

definition build_row :: "config \<Rightarrow> string list \<Rightarrow> string \<Rightarrow> bool \<Rightarrow> string \<Rightarrow> pydict \<Rightarrow> pydict" where
  "build_row cfg cols src_path success message metadata =
     AList.update ''message'' (PStr message)
       (AList.update ''success'' (PInt (if success then 1 else 0))
          (AList.update ''path'' (PStr (drop (length (src_dir cfg) + 1) src_path))
             (pad cols metadata)))"

text \<open>
  Lines 182 to 198: the call of the capability inside \<^verbatim>\<open>try\<close>. The result is the
  values of \<^verbatim>\<open>success\<close>, \<^verbatim>\<open>message\<close> and \<^verbatim>\<open>metadata\<close> after the statement and the
  state. The placeholder is written only on the branch where the capability has returned
  a false \<^verbatim>\<open>success\<close>; the handler only prints.
\<close>

definition try_preprocess ::
  "config \<Rightarrow> string \<Rightarrow> string \<Rightarrow> state \<Rightarrow> bool \<times> string \<times> pydict \<times> state" where
  "try_preprocess cfg src_path dest_path st =
     (case preprocess_fn cfg src_path dest_path (fs st) of
        (f', Returned s m md) \<Rightarrow>
          (s, m, md,
           if \<not> s
           then print_msg (ReportedFailure src_path m)
                  (st\<lparr>fs := f'(dest_path \<mapsto> File []),
                      io := io st @ [OpenWrite dest_path, Close dest_path]\<rparr>)
           else st\<lparr>fs := f'\<rparr>)
      | (f', Raised tb) \<Rightarrow>
          (False, [], [],
           print_msg (TracebackText tb) (print_msg (ErrorHappened src_path) (st\<lparr>fs := f'\<rparr>))))"

text \<open>
  The body of the worker's loop for a work item, lines 177 to 213. The second component
  is the exception that leaves the loop, if any: iterating over a
  \<^verbatim>\<open>self.metadata_columns\<close> that is \<^verbatim>\<open>None\<close> raises \<^verbatim>\<open>TypeError\<close>, and
  \<^verbatim>\<open>write_metadata\<close> may raise; neither is inside the \<^verbatim>\<open>try\<close>.
\<close>

definition worker_item :: "config \<Rightarrow> nat \<Rightarrow> string \<times> string \<Rightarrow> state \<Rightarrow> state \<times> error option" where
  "worker_item cfg pid item st =
     (case item of (src_path, dest_path) \<Rightarrow>
        (case try_preprocess cfg src_path dest_path (print_msg (WillProcess pid src_path) st) of
           (success, message, metadata, st2) \<Rightarrow>
             (case metadata_columns cfg of None \<Rightarrow> (st2, Some TypeError)
              | Some cols \<Rightarrow>
                (case write_metadata cfg (build_row cfg cols src_path success message metadata) st2 of
                   Inl e \<Rightarrow> (st2, Some e)
                 | Inr st3 \<Rightarrow> (st3, None)))))"

section \<open>The dispatcher and the run\<close>

text \<open>The path mapping of lines 112 to 128, without the cache of the current directory.\<close>

definition dest_dir_of :: "config \<Rightarrow> string \<Rightarrow> string" where
  "dest_dir_of cfg dir = join (dest_dir cfg) (drop (length (src_dir cfg) + 1) dir)"

definition dest_filename_of :: "config \<Rightarrow> string \<Rightarrow> string" where
  "dest_filename_of cfg src_path =
     fst (splitext (snd (split_path src_path))) @ output_extension cfg"

definition dest_path_of :: "config \<Rightarrow> string \<Rightarrow> string" where
  "dest_path_of cfg src_path =
     join (dest_dir_of cfg (fst (split_path src_path))) (dest_filename_of cfg src_path)"

text \<open>\<^verbatim>\<open>multiproc.Queue(maxsize=10)\<close>.\<close>

definition maxsize :: nat where
  "maxsize = 10"

text \<open>Lines 117 to 124: entering a new directory.\<close>

definition enter_dir :: "config \<Rightarrow> string \<Rightarrow> state \<Rightarrow> state" where
  "enter_dir cfg dir st =
     (if cur_src_dir st \<noteq> Some dir
      then (let cdd = dest_dir_of cfg dir;
                st1 = st\<lparr>cur_src_dir := Some dir, cur_dest_dir := Some cdd\<rparr>
            in if \<not> exists (fs st1) cdd
               then (print_msg (WillCreateDir cdd) st1)\<lparr>fs := makedirs (fs st1) cdd\<rparr>
               else st1)
      else st)"

text \<open>
  The body of the \<^verbatim>\<open>for\<close> loop up to the call of \<^verbatim>\<open>queue.put\<close>, lines 105 to 133.
  The elapsed time of the progress report is not part of the message here.
  Joining a \<^verbatim>\<open>cur_dest_dir\<close> that is still \<^verbatim>\<open>None\<close> would raise \<^verbatim>\<open>TypeError\<close>.
\<close>

definition dispatch_path :: "config \<Rightarrow> string \<Rightarrow> state \<Rightarrow> state" where
  "dispatch_path cfg src_path st =
     (let st0 = (if count st > 0 \<and> count st mod 1000 = 0
                 then print_msg (ProgressReport (count st)) st else st);
          st1 = enter_dir cfg (fst (split_path src_path)) st0
      in case cur_dest_dir st1 of None \<Rightarrow> st1\<lparr>phase := Aborted TypeError\<rparr>
         | Some cdd \<Rightarrow>
           (let dest_filename = dest_filename_of cfg src_path;
                dest_path = join cdd dest_filename
            in if exists (fs st1) dest_path
               then print_msg (SkippingExisting dest_filename) st1
               else st1\<lparr>putting := Some (src_path, dest_path)\<rparr>))"

text \<open>\<^verbatim>\<open>Process.is_alive\<close>.\<close>

definition is_alive :: "wstatus list \<Rightarrow> nat \<Rightarrow> bool" where
  "is_alive ws p = (p < length ws \<and> ws ! p = Alive)"

text \<open>
  Lines 148 to 153: the \<^verbatim>\<open>for\<close> loop over \<^verbatim>\<open>processes_alive\<close>, which removes from the
  list it iterates over. Python's list iterator keeps an index, so after a removal the
  element that moves into the freed position is not visited in this pass.
\<close>

function poll :: "wstatus list \<Rightarrow> nat \<Rightarrow> nat list \<Rightarrow> msg list \<Rightarrow> nat list \<times> msg list" where
  "poll ws i pa out =
     (if i < length pa
      then (if \<not> is_alive ws (pa ! i)
            then poll ws (Suc i) (remove1 (pa ! i) pa) (out @ [ProcessDead (pa ! i)])
            else poll ws (Suc i) pa out)
      else (pa, out))"
  by pat_completeness auto
termination
  by (relation "measure (\<lambda>(ws, i, pa, out). length pa - i)") (auto simp: length_remove1)

declare poll.simps [simp del]

text \<open>
  One pass of the stopping loop, lines 145 to 153: saturate the queue with termination
  markers, then poll.
\<close>

definition drain_pass :: "state \<Rightarrow> state" where
  "drain_pass st =
     (case poll (workers st) 0 (processes_alive st) [] of
        (pa, out) \<Rightarrow>
          st\<lparr>queue := queue st @ replicate (maxsize - length (queue st)) None,
             console := console st @ out,
             processes_alive := pa\<rparr>)"

text \<open>
  One atomic action of the dispatcher process. A \<^verbatim>\<open>queue.put\<close> on a full queue
  blocks: the action leaves the state as it is.
\<close>

definition dispatcher_step :: "config \<Rightarrow> state \<Rightarrow> state" where
  "dispatcher_step cfg st =
     (case phase st of
        Enumerating \<Rightarrow>
          (case putting st of
             Some item \<Rightarrow>
               if length (queue st) < maxsize
               then st\<lparr>queue := queue st @ [Some item], putting := None, count := count st + 1\<rparr>
               else st
           | None \<Rightarrow>
               (case pending st of
                  [] \<Rightarrow> st\<lparr>phase := Draining, processes_alive := [0 ..< length (workers st)]\<rparr>
                | src_path # rest \<Rightarrow> dispatch_path cfg src_path (st\<lparr>pending := rest\<rparr>)))
      | Draining \<Rightarrow>
          if processes_alive st = [] then (print_msg DoneMsg st)\<lparr>phase := Done\<rparr>
          else drain_pass st
      | Done \<Rightarrow> st
      | Aborted e \<Rightarrow> st)"

text \<open>
  One atomic action of worker \<open>i\<close>, lines 168 to 213: take the next entry of the queue
  (blocking while it is empty); leave the loop on a marker; otherwise handle the item.
  An exception that leaves \<^verbatim>\<open>worker_fn\<close> ends the process.
\<close>

definition worker_step :: "config \<Rightarrow> nat \<Rightarrow> state \<Rightarrow> state" where
  "worker_step cfg i st =
     (if is_alive (workers st) i
      then (case queue st of
              [] \<Rightarrow> st
            | None # q \<Rightarrow>
                (print_msg (GotTermination i) st)\<lparr>queue := q, workers := (workers st)[i := Exited]\<rparr>
            | Some item # q \<Rightarrow>
                (case worker_item cfg i item (st\<lparr>queue := q\<rparr>) of
                   (st', None) \<Rightarrow> st'
                 | (st', Some e) \<Rightarrow> st'\<lparr>workers := (workers st')[i := Crashed e]\<rparr>))
      else st)"

text \<open>
  The processes run interleaved: a schedule names the process that acts next. What is
  proved for every schedule holds for every interleaving of these atomic actions.
\<close>

datatype actor = Dispatcher | Worker nat

fun step :: "config \<Rightarrow> actor \<Rightarrow> state \<Rightarrow> state" where
  "step cfg Dispatcher st = dispatcher_step cfg st"
| "step cfg (Worker i) st = worker_step cfg i st"

definition exec :: "config \<Rightarrow> actor list \<Rightarrow> state \<Rightarrow> state" where
  "exec cfg sched st = fold (step cfg) sched st"

text \<open>
  The state in which \<^verbatim>\<open>run\<close> enters its \<^verbatim>\<open>for\<close> loop, lines 79 to 102, over a source
  tree, a destination store and the records already in the log file: the workers have
  been started and the queue is empty. A failed assertion of the generator aborts the run.
\<close>

definition start :: "config \<Rightarrow> tree \<Rightarrow> fs \<Rightarrow> pyval list list \<Rightarrow> state" where
  "start cfg t f0 l0 =
     \<lparr> fs = f0, log = l0, io = [], console = [], queue = [],
       workers = replicate (num_processes cfg) Alive,
       pending = (case enumerate_files cfg t of Inl e \<Rightarrow> [] | Inr ps \<Rightarrow> ps),
       cur_src_dir = None, cur_dest_dir = None, count = 0, putting = None,
       processes_alive = [],
       phase = (case enumerate_files cfg t of Inl e \<Rightarrow> Aborted e | Inr ps \<Rightarrow> Enumerating) \<rparr>"

section \<open>Concrete inputs\<close>

text \<open>
  A state with an empty destination store and one live worker, two capabilities and the
  configuration the constructor builds for the log \<^verbatim>\<open>m.csv\<close> with the single
  attribute column \<^verbatim>\<open>w\<close>; the theorems below are evaluated on them.
\<close>

definition example_state :: state where
  "example_state =
     \<lparr> fs = Map.empty, log = [], io = [], console = [], queue = [], workers = [Alive],
       pending = [], cur_src_dir = None, cur_dest_dir = None, count = 0, putting = None,
       processes_alive = [], phase = Enumerating \<rparr>"

definition raising_capability :: capability where
  "raising_capability = (\<lambda>s d f. (f, Raised ''boom''))"

definition extra_capability :: capability where
  "extra_capability = (\<lambda>s d f. (f(d \<mapsto> File [[PStr s]]), Returned True [] [(''h'', PInt 1)]))"

definition example_cfg :: "capability \<Rightarrow> config" where
  "example_cfg fn =
     \<lparr> src_dir = ''/s'', dest_dir = ''/d'', preprocess_fn = fn,
       input_extension = ''.jpg'', output_extension = ''.png'',
       metadata_filename = Some ''m.csv'', metadata_columns = Some [''w''],
       num_processes = 1, column_order = Some [''path'', ''success'', ''message'', ''w''],
       csv_file_path = Some ''/d/m.csv'' \<rparr>"

text \<open>
  The record that a claim about a faulted item describes, over a column order: the
  relative path, \<^verbatim>\<open>success\<close> 0, an empty message, and \<^verbatim>\<open>None\<close> in every other column.
\<close>

definition fault_row :: "config \<Rightarrow> string \<Rightarrow> string list \<Rightarrow> pyval list" where
  "fault_row cfg src_path co =
     map (\<lambda>k. if k = ''path'' then PStr (drop (length (src_dir cfg) + 1) src_path)
              else if k = ''success'' then PInt 0
              else if k = ''message'' then PStr []
              else PNone) co"

section \<open>The constructor and dictionaries\<close>

lemma init_logged:
  assumes "init abspath src dest fn ie oe (Some name) mc n = Inr cfg"
  shows "\<exists>cols. mc = Some cols \<and> metadata_filename cfg = Some name
           \<and> metadata_columns cfg = Some (strip_reserved cols)
           \<and> column_order cfg = Some (reserved @ cols)
           \<and> csv_file_path cfg = Some (join dest name)
           \<and> src_dir cfg = abspath src \<and> dest_dir cfg = abspath dest
           \<and> preprocess_fn cfg = fn \<and> num_processes cfg = n"
  using assms
  by (auto simp: init_def Let_def split: sum.splits option.splits)

lemma init_unlogged:
  assumes "init abspath src dest fn ie oe None mc n = Inr cfg"
  shows "metadata_filename cfg = None \<and> metadata_columns cfg = mc
           \<and> column_order cfg = None \<and> csv_file_path cfg = None
           \<and> src_dir cfg = abspath src \<and> dest_dir cfg = abspath dest
           \<and> preprocess_fn cfg = fn \<and> num_processes cfg = n"
  using assms
  by (auto simp: init_def Let_def split: sum.splits option.splits)

lemma init_accepts:
  assumes "ie \<noteq> []" "oe \<noteq> Some []" "mf = None \<or> mc \<noteq> None"
  shows "\<exists>cfg. init abspath src dest fn ie oe mf mc n = Inr cfg"
  using assms
  by (auto simp: init_def norm_ext_def Let_def split: sum.splits option.splits)

lemma set_remove1_if:
  "insert k (set (if k \<in> set xs then remove1 k xs else xs)) = insert k (set xs)"
proof -
  have a: "x \<in> set xs \<Longrightarrow> x \<noteq> k \<Longrightarrow> x \<in> set (remove1 k xs)" for x
    by simp
  have b: "x \<in> set (remove1 k xs) \<Longrightarrow> x \<in> set xs" for x
    using set_remove1_subset [of k xs] by blast
  show ?thesis
  proof (cases "k \<in> set xs")
    case True
    then show ?thesis using a b by (simp only: if_True) blast
  next
    case False
    then show ?thesis by simp
  qed
qed

lemma set_strip_reserved: "set (strip_reserved cols) \<union> set reserved = set cols \<union> set reserved"
proof -
  define a where "a = (if ''path'' \<in> set cols then remove1 ''path'' cols else cols)"
  define b where "b = (if ''success'' \<in> set a then remove1 ''success'' a else a)"
  define c where "c = (if ''message'' \<in> set b then remove1 ''message'' b else b)"
  have "strip_reserved cols = c"
    by (simp add: strip_reserved_def reserved_def a_def b_def c_def)
  moreover have "insert ''path'' (set a) = insert ''path'' (set cols)"
    unfolding a_def by (rule set_remove1_if)
  moreover have "insert ''success'' (set b) = insert ''success'' (set a)"
    unfolding b_def by (rule set_remove1_if)
  moreover have "insert ''message'' (set c) = insert ''message'' (set b)"
    unfolding c_def by (rule set_remove1_if)
  ultimately show ?thesis
    unfolding reserved_def by (simp only: set_simps Un_insert_right Un_empty_right) blast
qed

lemma keys_dom: "keys d = dom (map_of d)"
  by (simp add: keys_def dom_map_of_conv_image_fst)

lemma keys_update: "keys (AList.update k v d) = insert k (keys d)"
  by (simp add: keys_dom update_conv')

lemma map_of_pad:
  "map_of (pad cols d) c = (if c \<in> keys d then map_of d c else if c \<in> set cols then Some PNone else None)"
  unfolding pad_def
proof (induction cols arbitrary: d)
  case Nil
  then show ?case by (auto simp: keys_dom)
next
  case (Cons a cols)
  show ?case
    by (auto simp: Cons.IH keys_dom update_conv' domIff)
qed

lemma keys_pad: "keys (pad cols d) = keys d \<union> set cols"
  by (auto simp: keys_dom map_of_pad domIff split: if_splits)

lemma keys_build_row:
  "keys (build_row cfg cols src s m d) = keys d \<union> set cols \<union> set reserved"
  by (auto simp: build_row_def keys_update keys_pad reserved_def)

lemma those_map_of:
  "set co \<subseteq> keys d \<Longrightarrow> those (map (map_of d) co) = Some (map (\<lambda>k. the (map_of d k)) co)"
  by (induction co) (auto simp: keys_dom split: option.splits)

lemma init_example:
  "init (\<lambda>p. p) ''/s'' ''/d'' fn ''jpg'' (Some ''png'') (Some ''m.csv'') (Some [''w'']) 1 = Inr (example_cfg fn)"
  by (simp add: init_def norm_ext_def example_cfg_def strip_reserved_def reserved_def join_def)

section \<open>The column order\<close>

text \<open>
  Claim C1: the configured column order is \<^verbatim>\<open>path\<close>, \<^verbatim>\<open>success\<close>, \<^verbatim>\<open>message\<close>
  followed by the user's columns without the reserved names, so that no name occurs
  twice. The constructor strips the reserved names from its copy of the list but builds
  the column order from the list as the caller passed it: for the user columns
  \<^verbatim>\<open>['path', 'width']\<close> the stripped copy is \<^verbatim>\<open>['width']\<close> and the column order
  holds \<^verbatim>\<open>path\<close> twice.
\<close>

theorem column_order_keeps_reserved_names:
  "map_sum id column_order
     (init (\<lambda>p. p) ''/data/in'' ''/data/out'' fn ''jpg'' None (Some ''log.csv'')
        (Some [''path'', ''width'']) 4)
   = Inr (Some [''path'', ''success'', ''message'', ''path'', ''width''])
   \<and> map_sum id metadata_columns
     (init (\<lambda>p. p) ''/data/in'' ''/data/out'' fn ''jpg'' None (Some ''log.csv'')
        (Some [''path'', ''width'']) 4)
   = Inr (Some [''width''])"
  by (simp add: init_def norm_ext_def strip_reserved_def reserved_def)

section \<open>Enumeration and letter case\<close>

text \<open>
  Claim C8: the enumerator yields the files whose extension equals the configured input
  extension without regard to letter case. Only the file's extension is lower-cased:
  configured with \<^verbatim>\<open>JPG\<close>, the enumerator yields neither \<^verbatim>\<open>a.JPG\<close>, which has
  exactly the configured extension, nor \<^verbatim>\<open>b.jpg\<close>.
\<close>

theorem upper_case_extension_matches_nothing:
  "map_sum id (\<lambda>cfg. enumerate_files cfg (Tree [''a.JPG'', ''b.jpg''] []))
     (init (\<lambda>p. p) ''/data/in'' ''/data/out'' fn ''JPG'' None None None 4)
   = Inr (Inr [])"
  by (simp add: init_def norm_ext_def enumerate_files_def startswith_def splitext_def
        lower_def lower_char_def)

section \<open>Appending to the metadata log\<close>



section \<open>The worker on one item\<close>

lemma try_preprocess_raised:
  assumes "preprocess_fn cfg src_path dest_path (fs st) = (f', Raised tb)"
  shows "try_preprocess cfg src_path dest_path st =
           (False, [], [],
            st\<lparr>fs := f', console := console st @ [ErrorHappened src_path, TracebackText tb]\<rparr>)"
  using assms by (simp add: try_preprocess_def print_msg_def)

lemma try_preprocess_returned:
  assumes "preprocess_fn cfg src_path dest_path (fs st) = (f', Returned s m md)"
  shows "try_preprocess cfg src_path dest_path st =
           (s, m, md,
            if s then st\<lparr>fs := f'\<rparr>
            else st\<lparr>fs := f'(dest_path \<mapsto> File []),
                    io := io st @ [OpenWrite dest_path, Close dest_path],
                    console := console st @ [ReportedFailure src_path m]\<rparr>)"
  using assms by (simp add: try_preprocess_def print_msg_def)

lemma try_preprocess_frame:
  assumes "try_preprocess cfg src_path dest_path st = (s, m, md, st2)"
  shows "log st2 = log st \<and> queue st2 = queue st \<and> workers st2 = workers st
       \<and> pending st2 = pending st \<and> cur_src_dir st2 = cur_src_dir st
       \<and> cur_dest_dir st2 = cur_dest_dir st \<and> count st2 = count st
       \<and> putting st2 = putting st \<and> processes_alive st2 = processes_alive st
       \<and> phase st2 = phase st"
  using assms
  by (auto simp: try_preprocess_def print_msg_def split: prod.splits outcome.splits if_splits)

lemma write_metadata_frame:
  assumes "write_metadata cfg row st = Inr st'"
  shows "fs st' = fs st \<and> console st' = console st \<and> queue st' = queue st
       \<and> workers st' = workers st
       \<and> pending st' = pending st \<and> cur_src_dir st' = cur_src_dir st
       \<and> cur_dest_dir st' = cur_dest_dir st \<and> count st' = count st
       \<and> putting st' = putting st \<and> processes_alive st' = processes_alive st
       \<and> phase st' = phase st"
  using assms
  by (auto simp: write_metadata_def split: option.splits if_splits)

lemma worker_item_frame:
  assumes "worker_item cfg pid item st = (st', r)"
  shows "queue st' = queue st \<and> workers st' = workers st
       \<and> pending st' = pending st \<and> cur_src_dir st' = cur_src_dir st
       \<and> cur_dest_dir st' = cur_dest_dir st \<and> count st' = count st
       \<and> putting st' = putting st \<and> processes_alive st' = processes_alive st
       \<and> phase st' = phase st"
proof -
  obtain src_path dest_path where i: "item = (src_path, dest_path)" by (cases item)
  obtain s m md st2 where
    t: "try_preprocess cfg src_path dest_path (print_msg (WillProcess pid src_path) st) = (s, m, md, st2)"
    by (metis prod_cases4)
  have f: "queue st2 = queue st \<and> workers st2 = workers st
       \<and> pending st2 = pending st \<and> cur_src_dir st2 = cur_src_dir st
       \<and> cur_dest_dir st2 = cur_dest_dir st \<and> count st2 = count st
       \<and> putting st2 = putting st \<and> processes_alive st2 = processes_alive st
       \<and> phase st2 = phase st"
    using try_preprocess_frame [OF t] by (simp add: print_msg_def)
  show ?thesis
    using assms f
    by (auto simp: worker_item_def i t split: option.splits sum.splits
          dest!: write_metadata_frame)
qed

lemma map_of_build_row:
  "map_of (build_row cfg cols src s m d) =
     (map_of (pad cols d))
       (''path'' \<mapsto> PStr (drop (length (src_dir cfg) + 1) src),
        ''success'' \<mapsto> PInt (if s then 1 else 0),
        ''message'' \<mapsto> PStr m)"
  by (simp add: build_row_def update_conv')

lemma keys_Nil: "keys [] = {}"
  by (simp add: keys_def)

lemma write_metadata_logged:
  assumes "metadata_filename cfg = Some name" and "column_order cfg = Some co"
      and "csv_file_path cfg = Some p" and "keys row = set co"
  shows "write_metadata cfg row st =
           Inr (st\<lparr>log := log st @ [map (\<lambda>k. the (map_of row k)) co],
                   io := io st @ [OpenAppend p, WriteRow p (map (\<lambda>k. the (map_of row k)) co),
                                  Close p]\<rparr>)"
proof -
  have "those (map (map_of row) co) = Some (map (\<lambda>k. the (map_of row k)) co)"
    using assms(4) by (intro those_map_of) simp
  with assms show ?thesis
    by (simp add: write_metadata_def)
qed

lemma fault_row_eq:
  assumes "set cols' \<union> set reserved = set cols \<union> set reserved"
  shows "map (\<lambda>k. the (map_of (build_row cfg cols' src_path False [] []) k)) (reserved @ cols)
           = fault_row cfg src_path (reserved @ cols)"
proof -
  have "the (map_of (build_row cfg cols' src_path False [] []) k)
        = (if k = ''path'' then PStr (drop (length (src_dir cfg) + 1) src_path)
              else if k = ''success'' then PInt 0
              else if k = ''message'' then PStr []
              else PNone)" if "k \<in> set (reserved @ cols)" for k
  proof -
    from that assms have "k \<in> set reserved \<or> k \<in> set cols'" by auto
    then show ?thesis
      by (auto simp: map_of_build_row map_of_pad reserved_def keys_def)
  qed
  then show ?thesis
    unfolding fault_row_def by (intro map_cong) auto
qed

text \<open>
  Claim C10: a configuration with neither a log file name nor a column list is accepted
  by the constructor, and with it the worker raises \<^verbatim>\<open>TypeError\<close> on every item it
  takes, after the call of the capability and outside the \<^verbatim>\<open>try\<close>: the process of a
  live worker that finds an item at the head of the queue ends in that exception, and
  nothing is logged.
\<close>

theorem worker_dies_without_columns:
  assumes "ie \<noteq> []" and "oe \<noteq> Some []"
  shows "\<exists>cfg. init abspath src dest fn ie oe None None n = Inr cfg
           \<and> (\<forall>pid item st. snd (worker_item cfg pid item st) = Some TypeError)
           \<and> (\<forall>i item q st. is_alive (workers st) i \<and> queue st = Some item # q
                 \<longrightarrow> workers (worker_step cfg i st) ! i = Crashed TypeError
                   \<and> log (worker_step cfg i st) = log st)"
proof -
  from assms obtain cfg where c: "init abspath src dest fn ie oe None None n = Inr cfg"
    using init_accepts [of ie oe None None] by blast
  then have m: "metadata_columns cfg = None"
    by (auto dest: init_unlogged)
  have w: "snd (worker_item cfg pid item st) = Some TypeError" for pid item st
    by (simp add: worker_item_def m split: prod.splits)
  have "workers (worker_step cfg i st) ! i = Crashed TypeError
          \<and> log (worker_step cfg i st) = log st"
    if a: "is_alive (workers st) i" and q: "queue st = Some item # q" for i item q st
  proof -
    obtain st' where r: "worker_item cfg i item (st\<lparr>queue := q\<rparr>) = (st', Some TypeError)"
      using w [of i item "st\<lparr>queue := q\<rparr>"] by (cases "worker_item cfg i item (st\<lparr>queue := q\<rparr>)") auto
    have l: "log st' = log st"
      using r by (auto simp: worker_item_def m split: prod.splits dest!: try_preprocess_frame)
        (simp add: print_msg_def)
    from worker_item_frame [OF r] a l show ?thesis
      by (simp add: worker_step_def q r is_alive_def)
  qed
  with c w show ?thesis by blast
qed

theorem worker_dies_without_columns_witness:
  "\<exists>cfg. init (\<lambda>p. p) ''/s'' ''/d'' raising_capability ''jpg'' None None None 1 = Inr cfg
         \<and> snd (worker_item cfg 0 (''/s/a.jpg'', ''/d/a.jpg'') example_state) = Some TypeError"
  using worker_dies_without_columns [of "''jpg''" None "\<lambda>p. p" "''/s''" "''/d''" raising_capability 1]
  by auto

text \<open>
  Claim C6, as stated: whatever the outcome, the row the worker builds has exactly the
  configured columns as keys. The worker adds the missing columns but removes nothing: an
  attribute the capability returns outside the configured columns stays in the row, and
  \<^verbatim>\<open>write_metadata\<close> then raises \<^verbatim>\<open>AssertionError\<close>.
\<close>

theorem row_keys_exceed_columns:
  "fst (snd (snd (try_preprocess (example_cfg extra_capability) ''/s/a.jpg'' ''/d/a.png'' example_state)))
     = [(''h'', PInt 1)]
   \<and> keys (build_row (example_cfg extra_capability) [''w''] ''/s/a.jpg'' True [] [(''h'', PInt 1)])
     \<noteq> set [''path'', ''success'', ''message'', ''w'']
   \<and> snd (worker_item (example_cfg extra_capability) 0 (''/s/a.jpg'', ''/d/a.png'') example_state)
     = Some AssertionError"
proof -
  have "''h'' \<in> keys (build_row (example_cfg extra_capability) [''w''] ''/s/a.jpg'' True [] [(''h'', PInt 1)])"
    by (subst keys_build_row) (simp add: keys_def)
  moreover have "''h'' \<notin> set [''path'', ''success'', ''message'', ''w'']"
    by simp
  ultimately have k: "keys (build_row (example_cfg extra_capability) [''w''] ''/s/a.jpg'' True [] [(''h'', PInt 1)])
     \<noteq> set [''path'', ''success'', ''message'', ''w'']"
    by metis
  have t: "try_preprocess (example_cfg extra_capability) ''/s/a.jpg'' ''/d/a.png'' st
     = (True, [], [(''h'', PInt 1)], st\<lparr>fs := (fs st)(''/d/a.png'' \<mapsto> File [[PStr ''/s/a.jpg'']])\<rparr>)" for st
    by (simp add: try_preprocess_def example_cfg_def extra_capability_def)
  have c: "metadata_columns (example_cfg extra_capability) = Some [''w'']"
      "metadata_filename (example_cfg extra_capability) = Some ''m.csv''"
      "column_order (example_cfg extra_capability) = Some [''path'', ''success'', ''message'', ''w'']"
    by (simp_all add: example_cfg_def)
  have w: "write_metadata (example_cfg extra_capability)
     (build_row (example_cfg extra_capability) [''w''] ''/s/a.jpg'' True [] [(''h'', PInt 1)]) st
       = Inl AssertionError" for st
    unfolding write_metadata_def c using k by simp
  show ?thesis
    using k by (simp add: worker_item_def t c w)
qed

text \<open>
  Claim C6, amended: for a configuration built with a column list, when the attribute
  names the capability returned are among the configured columns (none are, after a
  fault), the row has exactly the configured columns \<^verbatim>\<open>path\<close>, \<^verbatim>\<open>success\<close>,
  \<^verbatim>\<open>message\<close> and the user's columns as keys; a configured attribute column that was
  not returned holds \<^verbatim>\<open>None\<close>; \<^verbatim>\<open>path\<close> holds the source path without its first
  \<^verbatim>\<open>len(src_dir) + 1\<close> characters, which is the path relative to a source root that
  is followed by a separator; \<^verbatim>\<open>success\<close> holds 1 or 0 and \<^verbatim>\<open>message\<close> the message.
\<close>

theorem worker_row_wellformed:
  assumes "init abspath src dest fn ie oe mf (Some cols) n = Inr cfg"
      and "try_preprocess cfg src_path dest_path st = (success, message, metadata, st2)"
      and "keys metadata \<subseteq> set (reserved @ cols)"
  shows "\<exists>cols'. metadata_columns cfg = Some cols'
           \<and> column_order cfg = (case mf of None \<Rightarrow> None | Some name \<Rightarrow> Some (reserved @ cols))
           \<and> keys (build_row cfg cols' src_path success message metadata) = set (reserved @ cols)
           \<and> (\<forall>c\<in>set cols. c \<notin> keys metadata \<and> c \<notin> set reserved \<longrightarrow>
                 map_of (build_row cfg cols' src_path success message metadata) c = Some PNone)
           \<and> map_of (build_row cfg cols' src_path success message metadata) ''path''
               = Some (PStr (drop (length (src_dir cfg) + 1) src_path))
           \<and> (\<forall>rel. src_path = src_dir cfg @ ''/'' @ rel \<longrightarrow>
                 map_of (build_row cfg cols' src_path success message metadata) ''path''
                   = Some (PStr rel))
           \<and> map_of (build_row cfg cols' src_path success message metadata) ''success''
               = Some (PInt (if success then 1 else 0))
           \<and> map_of (build_row cfg cols' src_path success message metadata) ''message''
               = Some (PStr message)"
proof -
  obtain cols' where c: "metadata_columns cfg = Some cols'"
      "set cols' \<union> set reserved = set cols \<union> set reserved"
      "column_order cfg = (case mf of None \<Rightarrow> None | Some name \<Rightarrow> Some (reserved @ cols))"
  proof (cases mf)
    case None
    with assms(1) show ?thesis
      by (intro that [of cols]) (auto dest!: init_unlogged)
  next
    case (Some name)
    with assms(1) show ?thesis
      by (intro that [of "strip_reserved cols"]) (auto dest!: init_logged simp: set_strip_reserved)
  qed
  have k: "keys (build_row cfg cols' src_path success message metadata) = set (reserved @ cols)"
    using assms(3) c(2) by (auto simp: keys_build_row)
  have n: "map_of (build_row cfg cols' src_path success message metadata) x = Some PNone"
    if "x \<in> set cols" "x \<notin> keys metadata" "x \<notin> set reserved" for x
  proof -
    from that c(2) have "x \<in> set cols'" by blast
    with that show ?thesis
      by (simp add: map_of_build_row map_of_pad reserved_def)
  qed
  show ?thesis
    using c(1,3) k n by (auto simp: map_of_build_row)
qed

theorem worker_row_wellformed_witness:
  "keys (build_row (example_cfg raising_capability) [''w''] ''/s/a.jpg'' False [] [])
     = set [''path'', ''success'', ''message'', ''w'']
   \<and> map_of (build_row (example_cfg raising_capability) [''w''] ''/s/a.jpg'' False [] []) ''w''
     = Some PNone
   \<and> map_of (build_row (example_cfg raising_capability) [''w''] ''/s/a.jpg'' False [] []) ''path''
     = Some (PStr ''a.jpg'')"
proof -
  have t: "try_preprocess (example_cfg raising_capability) ''/s/a.jpg'' ''/d/a.png'' example_state
     = (False, [], [], example_state\<lparr>console := [ErrorHappened ''/s/a.jpg'', TracebackText ''boom'']\<rparr>)"
    by (simp add: try_preprocess_def example_cfg_def raising_capability_def print_msg_def
          example_state_def)
  have k: "keys [] \<subseteq> set (reserved @ [''w''])"
    by (simp add: keys_def)
  from worker_row_wellformed [OF init_example t k]
  show ?thesis
    by (simp add: example_cfg_def reserved_def keys_def)
qed

text \<open>
  Claim C2, as stated: an item whose capability call raises gets a placeholder file at
  its destination. The placeholder is written on the branch of a returned false
  \<^verbatim>\<open>success\<close> only; the exception handler prints and writes nothing.
\<close>

theorem raised_fault_leaves_no_placeholder:
  "fs (fst (worker_item (example_cfg raising_capability) 0 (''/s/a.jpg'', ''/d/a.png'') example_state))
     ''/d/a.png'' = None
   \<and> snd (worker_item (example_cfg raising_capability) 0 (''/s/a.jpg'', ''/d/a.png'') example_state)
     = None"
proof -
  have t: "try_preprocess (example_cfg raising_capability) ''/s/a.jpg'' ''/d/a.png'' st
     = (False, [], [], st\<lparr>console := console st @ [ErrorHappened ''/s/a.jpg'', TracebackText ''boom'']\<rparr>)" for st
    by (simp add: try_preprocess_def example_cfg_def raising_capability_def print_msg_def)
  have c: "metadata_columns (example_cfg raising_capability) = Some [''w'']"
      "metadata_filename (example_cfg raising_capability) = Some ''m.csv''"
      "column_order (example_cfg raising_capability) = Some [''path'', ''success'', ''message'', ''w'']"
      "csv_file_path (example_cfg raising_capability) = Some ''/d/m.csv''"
    by (simp_all add: example_cfg_def)
  have k: "keys (build_row (example_cfg raising_capability) [''w''] ''/s/a.jpg'' False [] [])
             = set [''path'', ''success'', ''message'', ''w'']"
    by (subst keys_build_row) (auto simp: keys_def reserved_def)
  show ?thesis
    by (simp add: worker_item_def t c write_metadata_logged [OF c(2,3,4) k] print_msg_def
          example_state_def)
qed

text \<open>
  Claim C2, amended: for a configuration built with a column list, a fault of the
  capability is swallowed. The worker reports the item and the traceback, leaves the
  destination store as the capability left it (no placeholder), appends, when a log is
  configured, the record with the relative path, \<^verbatim>\<open>success\<close> 0, an empty message and
  \<^verbatim>\<open>None\<close> in every other column, and goes on without an exception.
\<close>

theorem raised_fault_is_logged_as_failure:
  assumes "init abspath src dest fn ie oe mf (Some cols) n = Inr cfg"
      and "fn src_path dest_path (fs st) = (f', Raised tb)"
  shows "worker_item cfg pid (src_path, dest_path) st =
           (case csv_file_path cfg of
              None \<Rightarrow>
                st\<lparr>fs := f',
                   console := console st @ [WillProcess pid src_path, ErrorHappened src_path,
                                            TracebackText tb]\<rparr>
            | Some p \<Rightarrow>
                st\<lparr>fs := f',
                   console := console st @ [WillProcess pid src_path, ErrorHappened src_path,
                                            TracebackText tb],
                   log := log st @ [fault_row cfg src_path (reserved @ cols)],
                   io := io st @ [OpenAppend p,
                                  WriteRow p (fault_row cfg src_path (reserved @ cols)),
                                  Close p]\<rparr>,
            None)"
proof -
  define st1 where "st1 = print_msg (WillProcess pid src_path) st"
  define st2 where "st2 = st1\<lparr>fs := f', console := console st1 @ [ErrorHappened src_path, TracebackText tb]\<rparr>"
  have fn: "preprocess_fn cfg = fn"
    using assms(1) by (cases mf) (auto dest!: init_logged init_unlogged)
  have "preprocess_fn cfg src_path dest_path (fs st1) = (f', Raised tb)"
    using assms(2) by (simp add: fn st1_def print_msg_def)
  then have t: "try_preprocess cfg src_path dest_path st1 = (False, [], [], st2)"
    unfolding st2_def by (rule try_preprocess_raised)
  show ?thesis
  proof (cases mf)
    case None
    with assms(1) have "metadata_columns cfg = Some cols" "metadata_filename cfg = None"
        "csv_file_path cfg = None"
      by (auto dest!: init_unlogged)
    then show ?thesis
      by (simp add: worker_item_def t st1_def [symmetric] write_metadata_def)
        (simp add: st2_def st1_def print_msg_def)
  next
    case (Some name)
    with assms(1) have c: "metadata_columns cfg = Some (strip_reserved cols)"
        "metadata_filename cfg = Some name" "column_order cfg = Some (reserved @ cols)"
        "csv_file_path cfg = Some (join dest name)"
      by (auto dest!: init_logged)
    have k: "keys (build_row cfg (strip_reserved cols) src_path False [] []) = set (reserved @ cols)"
      using set_strip_reserved [of cols] by (simp add: keys_build_row keys_Nil Un_commute)
    have w: "write_metadata cfg (build_row cfg (strip_reserved cols) src_path False [] []) st2
               = Inr (st2\<lparr>log := log st2 @ [fault_row cfg src_path (reserved @ cols)],
                        io := io st2 @ [OpenAppend (join dest name),
                                        WriteRow (join dest name) (fault_row cfg src_path (reserved @ cols)),
                                        Close (join dest name)]\<rparr>)"
      using write_metadata_logged [OF c(2,3,4) k, of st2]
      by (simp only: fault_row_eq [OF set_strip_reserved])
    show ?thesis
      by (simp add: worker_item_def t st1_def [symmetric] c w)
        (simp add: st2_def st1_def print_msg_def)
  qed
qed

theorem raised_fault_is_logged_as_failure_witness:
  "worker_item (example_cfg raising_capability) 0 (''/s/a.jpg'', ''/d/a.png'') example_state =
     (example_state
        \<lparr>fs := Map.empty,
         console := [WillProcess 0 ''/s/a.jpg'', ErrorHappened ''/s/a.jpg'', TracebackText ''boom''],
         log := [[PStr ''a.jpg'', PInt 0, PStr [], PNone]],
         io := [OpenAppend ''/d/m.csv'',
                WriteRow ''/d/m.csv'' [PStr ''a.jpg'', PInt 0, PStr [], PNone],
                Close ''/d/m.csv'']\<rparr>,
      None)"
proof -
  have h: "raising_capability ''/s/a.jpg'' ''/d/a.png'' (fs example_state) = (Map.empty, Raised ''boom'')"
    by (simp add: raising_capability_def example_state_def)
  from raised_fault_is_logged_as_failure [OF init_example [of raising_capability] h, of 0]
  show ?thesis
    by (simp add: example_cfg_def example_state_def fault_row_def reserved_def)
qed

end
